theory Spec2Isabelle
  imports Complex_Main
begin

section \<open>Arrays\<close>

text \<open>
  The inversion core of \<^verbatim>\<open>DEPENDENCIES/inverse_dependencies.py\<close> works on numpy arrays
  of Python floats. Entries are modelled as exact real numbers: the rounding, underflow
  and overflow of float64 are not modelled, and neither is NaN. The theorems of the
  last section do not rest on exact arithmetic: they say which call raises, which
  candidate the search selects and how the sign of an argument enters, and they read the
  same on whatever values \<^verbatim>\<open>np.dot\<close>, \<^verbatim>\<open>np.linalg.inv\<close> and \<^verbatim>\<open>np.linalg.norm\<close> compute. The
  numbers in the examples are the exact ones.

  A one-dimensional array is a list, whose shape is its length. A two-dimensional array
  carries its shape \<open>(nrows, ncols)\<close>, as \<^verbatim>\<open>G.shape\<close> does (also when one of the two is 0),
  and its entries, read at \<open>(i, j)\<close> with \<open>i < nrows\<close> and \<open>j < ncols\<close>.
  The numpy exceptions the code can meet are values of \<open>error\<close>.
\<close>

datatype error = LinAlgError | ValueError | IndexError

type_synonym vector = "real list"

type_synonym entries = "nat \<Rightarrow> nat \<Rightarrow> real"

record matrix =
  nrows :: nat
  ncols :: nat
  ent :: entries

text \<open>A two-dimensional array written row by row, as \<^verbatim>\<open>np.array([[..], ..])\<close> of shape \<open>(n, m)\<close>.\<close>

definition of_rows :: "nat \<Rightarrow> nat \<Rightarrow> real list list \<Rightarrow> matrix" where
  "of_rows n m rs = \<lparr>nrows = n, ncols = m, ent = (\<lambda>i j. rs ! i ! j)\<rparr>"

text \<open>\<^verbatim>\<open>np.identity(M)\<close>\<close>

definition identity :: "nat \<Rightarrow> matrix" where
  "identity M = \<lparr>nrows = M, ncols = M, ent = (\<lambda>i j. if i = j then 1 else 0)\<rparr>"

text \<open>\<^verbatim>\<open>G.T\<close>\<close>

definition transpose_m :: "matrix \<Rightarrow> matrix" where
  "transpose_m G = \<lparr>nrows = ncols G, ncols = nrows G, ent = (\<lambda>i j. ent G j i)\<rparr>"

text \<open>
  \<^verbatim>\<open>np.dot\<close> of two two-dimensional arrays, and of a two-dimensional with a one-dimensional
  array: the inner dimensions must agree, else numpy raises \<^verbatim>\<open>ValueError\<close>
  (shapes not aligned).
\<close>

definition dot_mm :: "matrix \<Rightarrow> matrix \<Rightarrow> error + matrix" where
  "dot_mm A B =
     (if ncols A = nrows B
      then Inr \<lparr>nrows = nrows A, ncols = ncols B,
                ent = (\<lambda>i j. \<Sum>k<ncols A. ent A i k * ent B k j)\<rparr>
      else Inl ValueError)"

definition dot_mv :: "matrix \<Rightarrow> vector \<Rightarrow> error + vector" where
  "dot_mv A v =
     (if ncols A = length v
      then Inr (map (\<lambda>i. \<Sum>k<ncols A. ent A i k * v ! k) [0..<nrows A])
      else Inl ValueError)"

text \<open>
  \<^verbatim>\<open>c * A\<close> with a scalar \<open>c\<close>, and \<^verbatim>\<open>A + B\<close> on two-dimensional arrays. The code adds two
  \<open>M \<times> M\<close> arrays only; other shapes are reported as the \<^verbatim>\<open>ValueError\<close> of a failed
  broadcast.
\<close>

definition smul :: "real \<Rightarrow> matrix \<Rightarrow> matrix" where
  "smul c A = \<lparr>nrows = nrows A, ncols = ncols A, ent = (\<lambda>i j. c * ent A i j)\<rparr>"

definition add_mm :: "matrix \<Rightarrow> matrix \<Rightarrow> error + matrix" where
  "add_mm A B =
     (if nrows A = nrows B \<and> ncols A = ncols B
      then Inr \<lparr>nrows = nrows A, ncols = ncols A, ent = (\<lambda>i j. ent A i j + ent B i j)\<rparr>
      else Inl ValueError)"

text \<open>
  \<^verbatim>\<open>x - y\<close> on one-dimensional arrays, with numpy's broadcasting: equal lengths subtract
  entry by entry, an array of length 1 is stretched to the other's length, and any other
  pair of lengths raises \<^verbatim>\<open>ValueError\<close>.
\<close>

definition sub_vv :: "vector \<Rightarrow> vector \<Rightarrow> error + vector" where
  "sub_vv x y =
     (if length x = length y then Inr (map (\<lambda>i. x ! i - y ! i) [0..<length x])
      else if length x = 1 then Inr (map (\<lambda>b. x ! 0 - b) y)
      else if length y = 1 then Inr (map (\<lambda>a. a - y ! 0) x)
      else Inl ValueError)"

text \<open>\<^verbatim>\<open>np.linalg.norm\<close> of a one-dimensional array: the Euclidean norm.\<close>

definition linalg_norm :: "vector \<Rightarrow> real" where
  "linalg_norm v = sqrt (\<Sum>i<length v. (v ! i)\<^sup>2)"

section \<open>Matrix inversion\<close>

text \<open>
  \<^verbatim>\<open>np.linalg.inv\<close> is a library routine (an LU factorisation in float64). Here it is
  Gauss-Jordan elimination in exact arithmetic on the pair \<open>(a, b)\<close>, which starts as
  \<open>(A, I)\<close>: column by column, a row with a non-zero entry in the column is swapped
  into place, scaled to a leading 1 and used to clear the column in every other row;
  \<open>b\<close> gets the same row operations. A column with no pivot raises \<^verbatim>\<open>LinAlgError\<close>
  (singular matrix), as does an array that is not square.

  The library raises only when a pivot is exactly zero after rounding, so it can return
  for a singular matrix and raise for an invertible one. Nothing below says for which
  matrices the inversion raises: the statements are about what \<open>lsqr_solution\<close> does
  with either outcome. The one example where the inversion raises, \<open>Gs\<close>, is a matrix
  whose elimination is exact in float64 too.
\<close>

definition find_pivot :: "nat \<Rightarrow> nat \<Rightarrow> entries \<Rightarrow> nat option" where
  "find_pivot n k a = List.find (\<lambda>p. a p k \<noteq> 0) [k..<n]"

definition swap_rows :: "nat \<Rightarrow> nat \<Rightarrow> entries \<Rightarrow> entries" where
  "swap_rows k p a = (\<lambda>i. if i = k then a p else if i = p then a k else a i)"

definition scale_row :: "nat \<Rightarrow> real \<Rightarrow> entries \<Rightarrow> entries" where
  "scale_row k c a = (\<lambda>i j. if i = k then c * a k j else a i j)"

definition clear_column :: "nat \<Rightarrow> (nat \<Rightarrow> real) \<Rightarrow> entries \<Rightarrow> entries" where
  "clear_column k c a = (\<lambda>i j. if i = k then a k j else a i j - c i * a k j)"

definition pivot_step :: "nat \<Rightarrow> nat \<Rightarrow> entries \<times> entries \<Rightarrow> entries \<times> entries" where
  "pivot_step k p ab =
     (let a1 = swap_rows k p (fst ab); b1 = swap_rows k p (snd ab);
          c = 1 / a1 k k;
          a2 = scale_row k c a1; b2 = scale_row k c b1;
          col = (\<lambda>i. a2 i k)
      in (clear_column k col a2, clear_column k col b2))"

fun gauss_jordan :: "nat \<Rightarrow> nat list \<Rightarrow> entries \<times> entries \<Rightarrow> error + entries" where
  "gauss_jordan n [] ab = Inr (snd ab)"
| "gauss_jordan n (k # ks) ab =
     (case find_pivot n k (fst ab) of
        None \<Rightarrow> Inl LinAlgError
      | Some p \<Rightarrow> gauss_jordan n ks (pivot_step k p ab))"

definition linalg_inv :: "matrix \<Rightarrow> error + matrix" where
  "linalg_inv A =
     (if nrows A \<noteq> ncols A then Inl LinAlgError
      else case gauss_jordan (nrows A) [0..<nrows A] (ent A, ent (identity (nrows A))) of
             Inl e \<Rightarrow> Inl e
           | Inr b \<Rightarrow> Inr \<lparr>nrows = nrows A, ncols = nrows A, ent = b\<rparr>)"

section \<open>The inversion core\<close>

text \<open>
  \<^verbatim>\<open>lsqr_solution(G, d, epsilon)\<close>: the matrix \<open>A = G\<^sup>T G + epsilon\<^sup>2 I\<close>, its inverse, and
  \<^verbatim>\<open>np.dot(np.dot(A_inv, G.T), d)\<close>. No argument is checked; the first numpy call that
  fails raises.
\<close>

definition normal_matrix :: "matrix \<Rightarrow> real \<Rightarrow> error + matrix" where
  "normal_matrix G epsilon =
     (let M = ncols G; I = identity M
      in case dot_mm (transpose_m G) G of
           Inl e \<Rightarrow> Inl e
         | Inr GtG \<Rightarrow> add_mm GtG (smul (epsilon\<^sup>2) I))"

definition lsqr_solution :: "matrix \<Rightarrow> vector \<Rightarrow> real \<Rightarrow> error + vector" where
  "lsqr_solution G d epsilon =
     (case normal_matrix G epsilon of
        Inl e \<Rightarrow> Inl e
      | Inr A \<Rightarrow>
          (case linalg_inv A of
             Inl e \<Rightarrow> Inl e
           | Inr A_inv \<Rightarrow>
               (case dot_mm A_inv (transpose_m G) of
                  Inl e \<Rightarrow> Inl e
                | Inr P \<Rightarrow> dot_mv P d)))"

text \<open>\<^verbatim>\<open>residual(d, G, m)\<close>: \<^verbatim>\<open>np.linalg.norm(d - np.dot(G, m))**2\<close>.\<close>

definition residual :: "vector \<Rightarrow> matrix \<Rightarrow> vector \<Rightarrow> error + real" where
  "residual d G m =
     (case dot_mv G m of
        Inl e \<Rightarrow> Inl e
      | Inr d_est \<Rightarrow>
          (case sub_vv d d_est of
             Inl e \<Rightarrow> Inl e
           | Inr r \<Rightarrow> Inr ((linalg_norm r)\<^sup>2)))"

text \<open>
  \<^verbatim>\<open>np.argmin\<close> of a list: the index of the first occurrence of the least value, and
  \<^verbatim>\<open>ValueError\<close> on an empty list. The scan keeps the best index so far and replaces it
  only by a strictly smaller value.
\<close>

fun argmin_from :: "nat \<Rightarrow> real \<Rightarrow> nat \<Rightarrow> real list \<Rightarrow> nat" where
  "argmin_from best v i [] = best"
| "argmin_from best v i (x # xs) =
     (if x < v then argmin_from i x (Suc i) xs else argmin_from best v (Suc i) xs)"

definition argmin :: "real list \<Rightarrow> error + nat" where
  "argmin xs = (case xs of [] \<Rightarrow> Inl ValueError | x # rest \<Rightarrow> Inr (argmin_from 0 x 1 rest))"

text \<open>
  \<^verbatim>\<open>find_optimal_epsilon(G, d, epsilon_values, noise_norm)\<close>: the loop appends one score
  per candidate to \<open>residuals\<close>, and an exception of a candidate ends the call; then
  \<^verbatim>\<open>epsilon_values[np.argmin(residuals)]\<close>.
\<close>

definition discrepancy :: "matrix \<Rightarrow> vector \<Rightarrow> real \<Rightarrow> real \<Rightarrow> error + real" where
  "discrepancy G d noise_norm epsilon =
     (case lsqr_solution G d epsilon of
        Inl e \<Rightarrow> Inl e
      | Inr m_est \<Rightarrow>
          (case residual d G m_est of
             Inl e \<Rightarrow> Inl e
           | Inr r \<Rightarrow> Inr \<bar>r - noise_norm\<^sup>2\<bar>))"

fun residuals_loop :: "matrix \<Rightarrow> vector \<Rightarrow> real \<Rightarrow> real list \<Rightarrow> real list \<Rightarrow> error + real list" where
  "residuals_loop G d noise_norm [] residuals = Inr residuals"
| "residuals_loop G d noise_norm (epsilon # rest) residuals =
     (case discrepancy G d noise_norm epsilon of
        Inl e \<Rightarrow> Inl e
      | Inr s \<Rightarrow> residuals_loop G d noise_norm rest (residuals @ [s]))"

definition find_optimal_epsilon :: "matrix \<Rightarrow> vector \<Rightarrow> real list \<Rightarrow> real \<Rightarrow> error + real" where
  "find_optimal_epsilon G d epsilon_values noise_norm =
     (case residuals_loop G d noise_norm epsilon_values [] of
        Inl e \<Rightarrow> Inl e
      | Inr residuals \<Rightarrow>
          (case argmin residuals of
             Inl e \<Rightarrow> Inl e
           | Inr i \<Rightarrow> if i < length epsilon_values then Inr (epsilon_values ! i)
                      else Inl IndexError))"

section \<open>The first index of the minimum, and concrete inputs\<close>

text \<open>
  \<open>i\<close> is the first index at which the list \<open>xs\<close> takes its least value.
\<close>

definition first_argmin :: "real list \<Rightarrow> nat \<Rightarrow> bool" where
  "first_argmin xs i =
     (i < length xs \<and> (\<forall>j<length xs. xs ! i \<le> xs ! j) \<and> (\<forall>j<i. xs ! i < xs ! j))"

text \<open>
  The \<open>5 \<times> 2\<close> operator and the data \<open>G [3, 5]\<close> of the specification's end-to-end
  scenario, a \<open>2 \<times> 1\<close> operator, and a rank-deficient \<open>2 \<times> 2\<close> operator (its second
  column is twice the first).
\<close>

definition G5 :: matrix where
  "G5 = of_rows 5 2 [[1,0],[0,1],[1,1],[2,0],[0,2]]"

definition d5 :: vector where
  "d5 = [3,5,8,6,10]"

definition G2 :: matrix where
  "G2 = of_rows 2 1 [[1],[1]]"

definition Gs :: matrix where
  "Gs = of_rows 2 2 [[1,2],[2,4]]"

section \<open>Shapes, and where the solver raises\<close>

lemma normal_matrix_Inr:
  "normal_matrix G epsilon =
     Inr \<lparr>nrows = ncols G, ncols = ncols G,
          ent = (\<lambda>i j. (\<Sum>k<nrows G. ent G k i * ent G k j)
                         + epsilon\<^sup>2 * (if i = j then 1 else 0))\<rparr>"
  by (simp add: normal_matrix_def Let_def dot_mm_def transpose_m_def add_mm_def smul_def
      identity_def)

lemma normal_matrix_shape:
  assumes "normal_matrix G epsilon = Inr A"
  shows "nrows A = ncols G" "ncols A = ncols G"
    "ent A i j = (\<Sum>k<nrows G. ent G k i * ent G k j) + epsilon\<^sup>2 * (if i = j then 1 else 0)"
  using assms unfolding normal_matrix_Inr by auto

lemma linalg_inv_shape:
  assumes "linalg_inv A = Inr B"
  shows "nrows A = ncols A" "nrows B = nrows A" "ncols B = nrows A"
  using assms by (auto simp: linalg_inv_def split: if_splits sum.splits)

lemma lsqr_solution_unfold:
  "lsqr_solution G d epsilon =
     (case normal_matrix G epsilon of
        Inl e \<Rightarrow> Inl e
      | Inr A \<Rightarrow>
         (case linalg_inv A of
            Inl e \<Rightarrow> Inl e
          | Inr B \<Rightarrow>
              if length d = nrows G
              then Inr (map (\<lambda>i. \<Sum>k<nrows G. (\<Sum>l<ncols G. ent B i l * ent G k l) * d ! k)
                            [0..<ncols G])
              else Inl ValueError))"
proof (cases "normal_matrix G epsilon")
  case (Inl e)
  then show ?thesis by (simp add: lsqr_solution_def)
next
  case (Inr A)
  note A = normal_matrix_shape[OF Inr]
  show ?thesis
  proof (cases "linalg_inv A")
    case (Inl e)
    then show ?thesis using Inr by (simp add: lsqr_solution_def)
  next
    case B: (Inr B)
    have sh: "nrows B = ncols G" "ncols B = ncols G"
      using linalg_inv_shape[OF B] A by simp_all
    show ?thesis
      using Inr B sh
      by (auto simp add: lsqr_solution_def dot_mm_def dot_mv_def transpose_m_def)
  qed
qed

lemma lsqr_solution_lengths:
  assumes "lsqr_solution G d epsilon = Inr m"
  shows "length d = nrows G" "length m = ncols G"
  using assms unfolding lsqr_solution_unfold
  by (auto split: sum.splits if_splits)

lemma lsqr_solution_mismatch:
  assumes "length d \<noteq> nrows G"
  shows "lsqr_solution G d epsilon =
           (case normal_matrix G epsilon of
              Inl e \<Rightarrow> Inl e
            | Inr A \<Rightarrow> (case linalg_inv A of Inl e \<Rightarrow> Inl e | Inr B \<Rightarrow> Inl ValueError))"
  using assms unfolding lsqr_solution_unfold by (simp split: sum.splits)

lemma residual_eq:
  assumes "length d = nrows G" "length m = ncols G"
  shows "residual d G m = Inr (\<Sum>i<nrows G. (d ! i - (\<Sum>j<ncols G. ent G i j * m ! j))\<^sup>2)"
proof -
  let ?est = "map (\<lambda>i. \<Sum>k<ncols G. ent G i k * m ! k) [0..<nrows G]"
  let ?r = "map (\<lambda>i. d ! i - ?est ! i) [0..<length d]"
  have est: "dot_mv G m = Inr ?est"
    using assms by (simp add: dot_mv_def)
  have sub: "sub_vv d ?est = Inr ?r"
    using assms by (simp add: sub_vv_def)
  have "(\<Sum>i<length ?r. (?r ! i)\<^sup>2) = (\<Sum>i<nrows G. (d ! i - (\<Sum>j<ncols G. ent G i j * m ! j))\<^sup>2)"
    using assms by simp
  moreover have "0 \<le> (\<Sum>i<length ?r. (?r ! i)\<^sup>2)"
    by (intro sum_nonneg) simp
  ultimately have n: "(linalg_norm ?r)\<^sup>2 = (\<Sum>i<nrows G. (d ! i - (\<Sum>j<ncols G. ent G i j * m ! j))\<^sup>2)"
    unfolding linalg_norm_def by (simp only: real_sqrt_pow2)
  show ?thesis
    by (simp only: residual_def est sub sum.case n)
qed

section \<open>The first index of the minimum and the search loop\<close>

lemma argmin_from_first:
  assumes "best < length pre" "pre ! best = v"
    and "\<forall>j<length pre. v \<le> pre ! j" and "\<forall>j<best. v < pre ! j"
  shows "first_argmin (pre @ xs) (argmin_from best v (length pre) xs)"
  using assms
proof (induction xs arbitrary: best v pre)
  case Nil
  then show ?case by (simp add: first_argmin_def)
next
  case (Cons x xs)
  show ?case
  proof (cases "x < v")
    case True
    have "first_argmin ((pre @ [x]) @ xs) (argmin_from (length pre) x (length (pre @ [x])) xs)"
    proof (rule Cons.IH)
      show "length pre < length (pre @ [x])" by simp
      show "(pre @ [x]) ! length pre = x" by simp
      show "\<forall>j<length (pre @ [x]). x \<le> (pre @ [x]) ! j"
        using True Cons.prems(3) by (auto simp: nth_append less_Suc_eq)
      show "\<forall>j<length pre. x < (pre @ [x]) ! j"
        using True Cons.prems(3) by (auto simp: nth_append)
    qed
    then show ?thesis using True by simp
  next
    case False
    have "first_argmin ((pre @ [x]) @ xs) (argmin_from best v (length (pre @ [x])) xs)"
    proof (rule Cons.IH)
      show "best < length (pre @ [x])" using Cons.prems(1) by simp
      show "(pre @ [x]) ! best = v" using Cons.prems(1,2) by (simp add: nth_append)
      show "\<forall>j<length (pre @ [x]). v \<le> (pre @ [x]) ! j"
        using False Cons.prems(3) by (auto simp: nth_append less_Suc_eq)
      show "\<forall>j<best. v < (pre @ [x]) ! j"
        using Cons.prems(1,4) by (auto simp: nth_append)
    qed
    then show ?thesis using False by simp
  qed
qed

lemma argmin_first:
  assumes "xs \<noteq> []"
  shows "\<exists>i. argmin xs = Inr i \<and> first_argmin xs i"
proof -
  obtain x rest where xs: "xs = x # rest" using assms by (cases xs) auto
  have "first_argmin ([x] @ rest) (argmin_from 0 x (length [x]) rest)"
    by (rule argmin_from_first) simp_all
  then show ?thesis by (simp add: xs argmin_def)
qed

lemma residuals_loop_ok:
  assumes "\<forall>e\<in>set es. discrepancy G d nn e = Inr (score e)"
  shows "residuals_loop G d nn es acc = Inr (acc @ map score es)"
  using assms by (induction es arbitrary: acc) simp_all

lemma residuals_loop_fail:
  assumes "\<forall>x\<in>set pre. \<exists>s. discrepancy G d nn x = Inr s" "discrepancy G d nn e = Inl err"
  shows "residuals_loop G d nn (pre @ e # post) acc = Inl err"
  using assms by (induction pre arbitrary: acc) auto

lemma discrepancy_ok:
  assumes "lsqr_solution G d e = Inr m"
  shows "\<exists>s. discrepancy G d nn e = Inr s"
  using assms lsqr_solution_lengths[OF assms]
  by (simp add: discrepancy_def residual_eq)

lemma find_optimal_epsilon_ok:
  assumes ne: "es \<noteq> []"
    and sc: "\<forall>e\<in>set es. discrepancy G d nn e = Inr (score e)"
  shows "\<exists>i. find_optimal_epsilon G d es nn = Inr (es ! i) \<and> first_argmin (map score es) i"
proof -
  have loop: "residuals_loop G d nn es [] = Inr (map score es)"
    using residuals_loop_ok[OF sc, of "[]"] by simp
  have "map score es \<noteq> []" using ne by simp
  from argmin_first[OF this]
  obtain i where i: "argmin (map score es) = Inr i" "first_argmin (map score es) i"
    by blast
  then have "i < length es" by (simp add: first_argmin_def)
  then have "find_optimal_epsilon G d es nn = Inr (es ! i)"
    by (simp add: find_optimal_epsilon_def loop i(1))
  then show ?thesis using i(2) by blast
qed

lemma find_optimal_epsilon_fail:
  assumes "\<forall>x\<in>set pre. \<exists>m. lsqr_solution G d x = Inr m" "lsqr_solution G d e = Inl err"
  shows "find_optimal_epsilon G d (pre @ e # post) nn = Inl err"
proof -
  have "\<forall>x\<in>set pre. \<exists>s. discrepancy G d nn x = Inr s"
    using assms(1) discrepancy_ok by blast
  moreover have "discrepancy G d nn e = Inl err"
    using assms(2) by (simp add: discrepancy_def)
  ultimately have "residuals_loop G d nn (pre @ e # post) [] = Inl err"
    by (rule residuals_loop_fail)
  then show ?thesis by (simp add: find_optimal_epsilon_def)
qed

lemma find_optimal_epsilon_empty: "find_optimal_epsilon G d [] nn = Inl ValueError"
  by (simp add: find_optimal_epsilon_def argmin_def)

lemma discrepancy_minus_noise:
  "discrepancy G d (- noise_norm) epsilon = discrepancy G d noise_norm epsilon"
  by (simp add: discrepancy_def split: sum.splits)

lemma residuals_loop_minus_noise:
  "residuals_loop G d (- noise_norm) es acc = residuals_loop G d noise_norm es acc"
  by (induction es arbitrary: acc) (simp_all add: discrepancy_minus_noise split: sum.splits)

section \<open>Evaluation on the concrete inputs\<close>

lemma sum_less_1: "(\<Sum>i<1::nat. f i) = (f 0 :: real)"
  by simp

lemma sum_less_2: "(\<Sum>i<2::nat. f i) = f 0 + (f 1 :: real)"
  by (simp add: numeral_2_eq_2)

lemma G5_shape: "nrows G5 = 5" "ncols G5 = 2"
  by (simp_all add: G5_def of_rows_def)

lemma G2_shape: "nrows G2 = 2" "ncols G2 = 1"
  by (simp_all add: G2_def of_rows_def)

lemma G2_solve: "lsqr_solution G2 [1, 3] 2 = Inr [2/3]"
  "lsqr_solution G2 [1, 3] (- 1) = Inr [4/3]" "lsqr_solution G2 [1, 3] 1 = Inr [4/3]"
  by code_simp+

lemma G2_residual: "residual [1, 3] G2 [2/3] = Inr (50/9)" "residual [1, 3] G2 [4/3] = Inr (26/9)"
  by (simp_all add: residual_eq G2_shape sum_less_2 sum_less_1) (simp_all add: G2_def of_rows_def power2_eq_square)

section \<open>The claims\<close>

text \<open>
  C2: for a non-empty list of candidates each of which can be solved, with
  \<open>score e = \<bar>residual d G (solve e) - noise_norm\<^sup>2\<bar>\<close>, \<open>find_optimal_epsilon\<close> returns
  the candidate at an index \<open>i\<close> whose score is least, and strictly less than the
  score of every earlier candidate: the first candidate of least score, a member of the
  list.
\<close>

theorem find_optimal_epsilon_first_argmin:
  assumes ne: "epsilon_values \<noteq> []"
    and sc: "\<forall>e\<in>set epsilon_values. \<exists>m r. lsqr_solution G d e = Inr m \<and>
               residual d G m = Inr r \<and> score e = \<bar>r - noise_norm\<^sup>2\<bar>"
  shows "\<exists>i<length epsilon_values.
           find_optimal_epsilon G d epsilon_values noise_norm = Inr (epsilon_values ! i) \<and>
           epsilon_values ! i \<in> set epsilon_values \<and>
           (\<forall>j<length epsilon_values. score (epsilon_values ! i) \<le> score (epsilon_values ! j)) \<and>
           (\<forall>j<i. score (epsilon_values ! i) < score (epsilon_values ! j))"
proof -
  have "\<forall>e\<in>set epsilon_values. discrepancy G d noise_norm e = Inr (score e)"
    using sc by (auto simp: discrepancy_def)
  from find_optimal_epsilon_ok[OF ne this]
  obtain i where r: "find_optimal_epsilon G d epsilon_values noise_norm = Inr (epsilon_values ! i)"
    and f: "first_argmin (map score epsilon_values) i"
    by blast
  have i: "i < length epsilon_values" using f by (simp add: first_argmin_def)
  have a: "\<forall>j<length epsilon_values. score (epsilon_values ! i) \<le> score (epsilon_values ! j)"
    using f i by (simp add: first_argmin_def)
  have b: "\<forall>j<i. score (epsilon_values ! i) < score (epsilon_values ! j)"
    using f i by (simp add: first_argmin_def)
  show ?thesis using i r a b by (intro exI[of _ i]) simp
qed

text \<open>
  The candidates \<open>2, -1, 1\<close> have the scores \<open>50/9, 26/9, 26/9\<close>: the tie between
  \<open>-1\<close> and \<open>1\<close> goes to \<open>-1\<close>, which comes first.
\<close>

theorem find_optimal_epsilon_first_argmin_witness:
  "[2, - 1, 1 :: real] \<noteq> [] \<and> find_optimal_epsilon G2 [1, 3] [2, - 1, 1] 0 = Inr (- 1)"
proof -
  let ?es = "[2, - 1, 1 :: real]"
  let ?score = "\<lambda>e::real. if e = 2 then 50/9 else (26/9 :: real)"
  have ne: "?es \<noteq> []" by simp
  have sc: "\<forall>e\<in>set ?es. \<exists>m r. lsqr_solution G2 [1, 3] e = Inr m \<and>
              residual [1, 3] G2 m = Inr r \<and> ?score e = \<bar>r - 0\<^sup>2\<bar>"
  proof (intro ballI)
    fix e :: real assume "e \<in> set ?es"
    then consider "e = 2" | "e = - 1" | "e = 1" by auto
    then show "\<exists>m r. lsqr_solution G2 [1, 3] e = Inr m \<and>
              residual [1, 3] G2 m = Inr r \<and> ?score e = \<bar>r - 0\<^sup>2\<bar>"
    proof cases
      case 1
      then show ?thesis
        by (intro exI[of _ "[2/3]"] exI[of _ "50/9"]) (simp add: G2_solve G2_residual)
    next
      case 2
      then show ?thesis
        by (intro exI[of _ "[4/3]"] exI[of _ "26/9"]) (simp add: G2_solve G2_residual)
    next
      case 3
      then show ?thesis
        by (intro exI[of _ "[4/3]"] exI[of _ "26/9"]) (simp add: G2_solve G2_residual)
    qed
  qed
  from find_optimal_epsilon_first_argmin[OF ne sc]
  obtain i where i: "i < length ?es"
    and r: "find_optimal_epsilon G2 [1, 3] ?es 0 = Inr (?es ! i)"
    and mn: "\<forall>j<length ?es. ?score (?es ! i) \<le> ?score (?es ! j)"
    and fst: "\<forall>j<i. ?score (?es ! i) < ?score (?es ! j)"
    by blast
  have "i = 0 \<or> i = 1 \<or> i = 2" using i by auto
  moreover have "i \<noteq> 0"
  proof
    assume "i = 0"
    have "(1::nat) < length ?es" by simp
    then have "?score (?es ! i) \<le> ?score (?es ! 1)" using mn by blast
    then show False unfolding \<open>i = 0\<close> by simp
  qed
  moreover have "i \<noteq> 2"
  proof
    assume "i = 2"
    then have "(1::nat) < i" by simp
    then have "?score (?es ! i) < ?score (?es ! 1)" using fst by blast
    then show False unfolding \<open>i = 2\<close> by simp
  qed
  ultimately have "i = 1" by blast
  then show ?thesis using r by simp
qed

text \<open>
  C6 as stated does not hold: a negative damping coefficient and a negative noise norm
  give a result; and for a vector \<open>d\<close> of the wrong length the inversion is still
  called, so that the call ends in the exception of the inversion (for \<open>Gs\<close>) or in
  the \<^verbatim>\<open>ValueError\<close> of the last product (for the \<open>5 \<times> 2\<close> operator).
\<close>

theorem eager_validation_counterexample:
  "lsqr_solution G2 [1, 3] (- 1) = Inr [4/3] \<and>
   find_optimal_epsilon G2 [1, 3] [1] (- 2) = Inr 1 \<and>
   lsqr_solution Gs [1] 0 = Inl LinAlgError \<and>
   lsqr_solution G5 [3, 5, 8, 6] 1 = Inl ValueError"
proof -
  have "discrepancy G2 [1, 3] (- 2) 1 = Inr \<bar>26/9 - (- 2)\<^sup>2\<bar>"
    by (simp add: discrepancy_def G2_solve G2_residual)
  then have "find_optimal_epsilon G2 [1, 3] [1] (- 2) = Inr 1"
    by (simp add: find_optimal_epsilon_def argmin_def)
  moreover have "lsqr_solution Gs [1] 0 = Inl LinAlgError" by code_simp
  moreover have "lsqr_solution G5 [3, 5, 8, 6] 1 = Inl ValueError" by code_simp
  ultimately show ?thesis using G2_solve by simp
qed

text \<open>
  C6, amended: no argument is checked. When the length of \<open>d\<close> differs from the row
  count of \<open>G\<close>, \<open>lsqr_solution\<close> still builds \<open>A\<close> and calls \<^verbatim>\<open>np.linalg.inv\<close> on
  it: if that call raises, its exception is the outcome; if it returns, the outcome is
  the \<^verbatim>\<open>ValueError\<close> of the last \<^verbatim>\<open>np.dot\<close>. An empty list of candidates makes
  \<open>find_optimal_epsilon\<close> raise \<^verbatim>\<open>ValueError\<close> (from \<^verbatim>\<open>np.argmin\<close>). A negative
  damping coefficient or noise norm is accepted and gives the outcome of its absolute
  value.
\<close>

theorem unchecked_arguments:
  "(length d \<noteq> nrows G \<longrightarrow>
      lsqr_solution G d epsilon =
        (case normal_matrix G epsilon of
           Inl e \<Rightarrow> Inl e
         | Inr A \<Rightarrow> (case linalg_inv A of Inl e \<Rightarrow> Inl e | Inr B \<Rightarrow> Inl ValueError))) \<and>
   find_optimal_epsilon G d [] noise_norm = Inl ValueError \<and>
   (epsilon < 0 \<longrightarrow> lsqr_solution G d epsilon = lsqr_solution G d (- epsilon)) \<and>
   (noise_norm < 0 \<longrightarrow>
      find_optimal_epsilon G d epsilon_values noise_norm =
        find_optimal_epsilon G d epsilon_values (- noise_norm))"
proof (intro conjI impI)
  assume "length d \<noteq> nrows G"
  then show "lsqr_solution G d epsilon =
        (case normal_matrix G epsilon of
           Inl e \<Rightarrow> Inl e
         | Inr A \<Rightarrow> (case linalg_inv A of Inl e \<Rightarrow> Inl e | Inr B \<Rightarrow> Inl ValueError))"
    by (rule lsqr_solution_mismatch)
next
  show "find_optimal_epsilon G d [] noise_norm = Inl ValueError"
    by (rule find_optimal_epsilon_empty)
next
  show "lsqr_solution G d epsilon = lsqr_solution G d (- epsilon)"
    by (simp add: lsqr_solution_def normal_matrix_def split: sum.splits)
next
  show "find_optimal_epsilon G d epsilon_values noise_norm =
        find_optimal_epsilon G d epsilon_values (- noise_norm)"
    by (simp add: find_optimal_epsilon_def residuals_loop_minus_noise)
qed

text \<open>
  A data vector of the wrong length on the \<open>5 \<times> 2\<close> operator, where the inversion
  returns, and on \<open>Gs\<close>, where it raises; negative arguments on the \<open>5 \<times> 2\<close> example.
\<close>

theorem unchecked_arguments_witness:
  "length [3, 5, 8, 6 :: real] \<noteq> nrows G5 \<and> length [1 :: real] \<noteq> nrows Gs \<and>
   (- 1 :: real) < 0 \<and>
   lsqr_solution G5 [3, 5, 8, 6] 1 = Inl ValueError \<and>
   lsqr_solution Gs [1] 0 = Inl LinAlgError \<and>
   find_optimal_epsilon G5 d5 [] (- 1) = Inl ValueError \<and>
   lsqr_solution G5 d5 (- 1) = lsqr_solution G5 d5 1 \<and>
   find_optimal_epsilon G5 d5 [0, 1] (- 1) = find_optimal_epsilon G5 d5 [0, 1] 1"
proof -
  have len: "length [3, 5, 8, 6 :: real] \<noteq> nrows G5" by (simp add: G5_shape)
  have lens: "length [1 :: real] \<noteq> nrows Gs" by (simp add: Gs_def of_rows_def)
  have c: "(case normal_matrix G5 1 of
              Inl e \<Rightarrow> Inl e
            | Inr A \<Rightarrow> (case linalg_inv A of Inl e \<Rightarrow> Inl e | Inr B \<Rightarrow> Inl ValueError))
           = (Inl ValueError :: error + vector)"
    by code_simp
  have cs: "(case normal_matrix Gs 0 of
              Inl e \<Rightarrow> Inl e
            | Inr A \<Rightarrow> (case linalg_inv A of Inl e \<Rightarrow> Inl e | Inr B \<Rightarrow> Inl ValueError))
           = (Inl LinAlgError :: error + vector)"
    by code_simp
  have r1: "lsqr_solution G5 [3, 5, 8, 6] 1 = Inl ValueError"
    using unchecked_arguments[of "[3, 5, 8, 6]" G5 1 0 "[]"] len c by simp
  have r1s: "lsqr_solution Gs [1] 0 = Inl LinAlgError"
    using unchecked_arguments[of "[1]" Gs 0 0 "[]"] lens cs by simp
  note t = unchecked_arguments[of d5 G5 "- 1" "- 1" "[0, 1]"]
  have r2: "find_optimal_epsilon G5 d5 [] (- 1) = Inl ValueError" using t by blast
  have r3: "lsqr_solution G5 d5 (- 1) = lsqr_solution G5 d5 1" using t by simp
  have r4: "find_optimal_epsilon G5 d5 [0, 1] (- 1) = find_optimal_epsilon G5 d5 [0, 1] 1"
    using t by simp
  show ?thesis using len lens r1 r1s r2 r3 r4 by simp
qed

text \<open>
  C9: the damping coefficient enters \<open>lsqr_solution\<close> only through its square, so a
  negative coefficient is accepted and gives the outcome (the solution, or the exception)
  of its absolute value: the solver is even in \<open>epsilon\<close>.
\<close>

theorem lsqr_solution_even:
  "lsqr_solution G d (- epsilon) = lsqr_solution G d epsilon \<and>
   lsqr_solution G d epsilon = lsqr_solution G d \<bar>epsilon\<bar>"
  by (simp add: lsqr_solution_def normal_matrix_def split: sum.splits)

text \<open>
  C10: the noise norm enters the scores of \<open>find_optimal_epsilon\<close> only through its
  square, so a negative noise norm is accepted and gives the outcome of its absolute
  value: the search is even in \<open>noise_norm\<close>.
\<close>

theorem find_optimal_epsilon_even:
  "find_optimal_epsilon G d epsilon_values (- noise_norm) =
     find_optimal_epsilon G d epsilon_values noise_norm \<and>
   find_optimal_epsilon G d epsilon_values noise_norm =
     find_optimal_epsilon G d epsilon_values \<bar>noise_norm\<bar>"
proof -
  have "find_optimal_epsilon G d epsilon_values \<bar>noise_norm\<bar> =
        find_optimal_epsilon G d epsilon_values noise_norm"
    by (cases "0 \<le> noise_norm")
       (simp_all add: find_optimal_epsilon_def abs_if residuals_loop_minus_noise)
  then show ?thesis
    by (simp add: find_optimal_epsilon_def residuals_loop_minus_noise)
qed

end
